theory Spec2Isabelle
  imports Complex_Main "HOL-Library.Log_Nat"
begin

unbundle bit_operations_syntax

section \<open>Server.py: the capture, inference and transmit loop\<close>

text \<open>
  The program is one \<^verbatim>\<open>while True\<close> loop around five external devices: the camera
  (\<^verbatim>\<open>cap.read\<close>), the pose estimator (\<^verbatim>\<open>pose.process\<close>), the datagram socket
  (\<^verbatim>\<open>sock.sendto\<close>), the clock (\<^verbatim>\<open>time.time\<close>, \<^verbatim>\<open>time.sleep\<close>) and the preview window
  (\<^verbatim>\<open>cv2.imshow\<close>, \<^verbatim>\<open>cv2.waitKey\<close>). The model runs the loop against the answers of these
  devices, one record of answers per iteration, and returns the calls the program makes
  (a list of events) together with the state it is left in.

  Python's \<^verbatim>\<open>float\<close> is the type variable \<open>'f\<close>: its multiplication, subtraction,
  division and comparison are the operations of the type classes \<open>times\<close>, \<open>minus\<close>,
  \<open>inverse\<close> and \<open>ord\<close>, of which no law is assumed; the conversion of an \<^verbatim>\<open>int\<close> operand
  and the rendering \<^verbatim>\<open>repr\<close> are the two fields of the record \<open>pyfloat\<close>.
  So every property below holds whatever the floating-point operations round to. The
  arithmetic Python runs, IEEE binary64, is the type \<open>binary64\<close>, with the
  multiplication and the subtraction that make it an instance of the mapper's \<open>'f\<close>.

  Two calls can raise in the model: \<^verbatim>\<open>sock.sendto\<close>, inside the only \<^verbatim>\<open>try\<close> of the
  program, and \<^verbatim>\<open>pose.process\<close>, which stands for the calls nothing guards. The key code
  of \<open>q\<close> is 113, and \<open>0xFF\<close> is 255.
\<close>

subsection \<open>Constants (lines 8 to 14 and 31 to 32)\<close>

definition UDP_IP :: string where
  "UDP_IP = ''192.168.0.165''"

definition UDP_PORT :: int where
  "UDP_PORT = 5052"

definition TARGET_FPS :: int where
  "TARGET_FPS = 30"

definition serverAddressPort :: "string \<times> int" where
  "serverAddressPort = (UDP_IP, UDP_PORT)"

text \<open>The resolution asked of the camera with \<^verbatim>\<open>cap.set(3, 1280)\<close> and \<^verbatim>\<open>cap.set(4, 720)\<close>.\<close>

definition requested_width :: int where
  "requested_width = 1280"

definition requested_height :: int where
  "requested_height = 720"

subsection \<open>Data\<close>

record 'f pyfloat =
  from_int :: "int \<Rightarrow> 'f"
  float_repr :: "'f \<Rightarrow> string"

text \<open>A landmark of \<^verbatim>\<open>results.pose_landmarks.landmark\<close>: the fields \<^verbatim>\<open>lm.x\<close>, \<^verbatim>\<open>lm.y\<close>, \<^verbatim>\<open>lm.z\<close>.\<close>

record 'f landmark =
  lm_x :: 'f
  lm_y :: 'f
  lm_z :: 'f

text \<open>An image, of which the loop reads \<^verbatim>\<open>img.shape\<close> only: rows, columns, channels.\<close>

record image =
  shape :: "int \<times> int \<times> int"

type_synonym bytes = "char list"

subsection \<open>The coordinate mapper (lines 66 to 72)\<close>

text \<open>
  The \<^verbatim>\<open>for lm in ...landmark\<close> loop, with \<^verbatim>\<open>data\<close> as the accumulator that
  \<^verbatim>\<open>data.extend\<close> grows at its end.
\<close>

fun extract_landmarks ::
  "(int \<Rightarrow> 'f::{times,minus}) \<Rightarrow> int \<Rightarrow> int \<Rightarrow> 'f landmark list \<Rightarrow> 'f list \<Rightarrow> 'f list" where
  "extract_landmarks conv h w [] data = data"
| "extract_landmarks conv h w (lm # lms) data =
     (let posX = lm_x lm * conv w;
          posY = conv h - (lm_y lm * conv h);
          posZ = lm_z lm * conv w
      in extract_landmarks conv h w lms (data @ [posX, posY, posZ]))"

text \<open>The mapped point of one landmark, as the specification writes it.\<close>

definition mapped_point :: "(int \<Rightarrow> 'f::{times,minus}) \<Rightarrow> int \<Rightarrow> int \<Rightarrow> 'f landmark \<Rightarrow> 'f list" where
  "mapped_point conv h w lm = [lm_x lm * conv w, conv h - lm_y lm * conv h, lm_z lm * conv w]"

subsection \<open>The payload (line 76)\<close>

text \<open>
  \<^verbatim>\<open>str(data)\<close> on a list: an opening bracket, the \<^verbatim>\<open>repr\<close> of each item, with a comma
  and a space written before every item but the first, and a closing bracket. The index
  \<open>i\<close> is the position of the next item.
\<close>

fun list_repr_items :: "('a \<Rightarrow> string) \<Rightarrow> nat \<Rightarrow> 'a list \<Rightarrow> string" where
  "list_repr_items repr i [] = []"
| "list_repr_items repr i (v # vs) =
     (if i > 0 then '', '' else []) @ repr v @ list_repr_items repr (Suc i) vs"

definition py_str_list :: "('a \<Rightarrow> string) \<Rightarrow> 'a list \<Rightarrow> string" where
  "py_str_list repr xs = ''['' @ list_repr_items repr 0 xs @ '']''"

text \<open>
  \<^verbatim>\<open>str.encode\<close> with its default, UTF-8, on a text whose characters are code points
  below 256: one byte below 128, two bytes from there on.
\<close>

definition utf8_char :: "char \<Rightarrow> bytes" where
  "utf8_char c =
     (let n = (of_char c :: nat)
      in if n < 128 then [c] else [char_of (192 + n div 64), char_of (128 + n mod 64)])"

definition str_encode :: "string \<Rightarrow> bytes" where
  "str_encode s = concat (map utf8_char s)"

subsection \<open>Calls and answers\<close>

text \<open>
  The calls the program makes on its devices, in the order it makes them. A \<open>SendTo\<close>
  carries the payload, the destination and what the call did: \<open>None\<close> when it returned
  (the datagram was handed to the network), \<open>Some e\<close> when it raised the exception \<open>e\<close>
  (nothing was sent). A \<open>Time\<close> carries the value \<^verbatim>\<open>time.time()\<close> returned.
\<close>

datatype 'f event =
    CapSet int int
  | CapRead
  | Print string
  | CvtColor
  | PoseProcess
  | DrawLandmarks
  | SendTo bytes "string \<times> int" "string option"
  | Time 'f
  | Sleep 'f
  | ImShow
  | WaitKey
  | CapRelease
  | DestroyAllWindows

text \<open>
  What the devices answer during one iteration, were they called:
  \<^item> \<open>cap_read\<close>: \<open>None\<close> for \<^verbatim>\<open>success = False\<close>, the image otherwise;
  \<^item> \<open>pose_process\<close>: \<open>Inl e\<close> when \<^verbatim>\<open>pose.process\<close> raises \<open>e\<close> (nothing catches it),
    else \<^verbatim>\<open>results.pose_landmarks\<close>, \<open>None\<close> when no pose was found;
  \<^item> \<open>sock_sendto\<close>: \<open>Some e\<close> when \<^verbatim>\<open>sock.sendto\<close> raises the \<^verbatim>\<open>Exception\<close> \<open>e\<close>;
  \<^item> \<open>time_current\<close> and \<open>time_after\<close>: the clock at line 81 and at line 85;
  \<^item> \<open>wait_key\<close>: the key code \<^verbatim>\<open>cv2.waitKey(1)\<close> returns.
\<close>

record 'f answers =
  cap_read :: "image option"
  pose_process :: "string + 'f landmark list option"
  sock_sendto :: "string option"
  time_current :: 'f
  time_after :: 'f
  wait_key :: int

datatype control = Continue | Break | Raise string

subsection \<open>The steps of one iteration\<close>

text \<open>Lines 55 to 78: the payload is built and sent only under \<^verbatim>\<open>if results.pose_landmarks\<close>.\<close>

definition send_step ::
  "'f::{times,minus} pyfloat \<Rightarrow> int \<Rightarrow> int \<Rightarrow> 'f landmark list option \<Rightarrow> string option \<Rightarrow> 'f event list" where
  "send_step F h w pose_landmarks raised =
     (case pose_landmarks of
        None \<Rightarrow> []
      | Some lms \<Rightarrow>
          (let data = extract_landmarks (from_int F) h w lms []
           in DrawLandmarks #
              SendTo (str_encode (py_str_list (float_repr F) data)) serverAddressPort raised #
              (case raised of
                 None \<Rightarrow> []
               | Some e \<Rightarrow> [Print (''Socket Error: '' @ e)])))"

text \<open>Lines 81 to 85: the events of the pacer and the new \<^verbatim>\<open>last_frame_time\<close>.\<close>

definition pace_step :: "'f::{minus,ord} \<Rightarrow> 'f \<Rightarrow> 'f \<Rightarrow> 'f \<Rightarrow> 'f event list \<times> 'f" where
  "pace_step frame_time last_frame_time t1 t2 =
     (let current_time = t1;
          elapsed = current_time - last_frame_time;
          slept = (if elapsed < frame_time then [Sleep (frame_time - elapsed)] else []);
          last_frame_time = t2
      in (Time t1 # slept @ [Time t2], last_frame_time))"

text \<open>Lines 88 to 91: \<^verbatim>\<open>cv2.waitKey(1) & 0xFF == ord('q')\<close>.\<close>

definition preview_step :: "int \<Rightarrow> 'f event list \<times> control" where
  "preview_step key =
     ([ImShow, WaitKey], if key AND 255 = of_char CHR ''q'' then Break else Continue)"

subsection \<open>The loop (lines 42 to 91) and the program\<close>

definition iteration ::
  "'f::{times,minus,ord} pyfloat \<Rightarrow> 'f \<Rightarrow> 'f \<Rightarrow> 'f answers \<Rightarrow> 'f event list \<times> 'f \<times> control" where
  "iteration F frame_time last_frame_time a =
     (case cap_read a of
        None \<Rightarrow> ([CapRead, Print ''Ignoring empty camera frame.''], last_frame_time, Continue)
      | Some img \<Rightarrow>
          (case shape img of (h, w, _) \<Rightarrow>
             (case pose_process a of
                Inl e \<Rightarrow> ([CapRead, CvtColor, PoseProcess], last_frame_time, Raise e)
              | Inr pose_landmarks \<Rightarrow>
                  (let sent = send_step F h w pose_landmarks (sock_sendto a);
                       (paced, last_frame_time) =
                          pace_step frame_time last_frame_time (time_current a) (time_after a);
                       (shown, ctl) = preview_step (wait_key a)
                   in ([CapRead, CvtColor, PoseProcess] @ sent @ paced @ shown,
                       last_frame_time, ctl)))))"

text \<open>
  Where the program is after a finite run of iterations: still in the loop, with its
  \<^verbatim>\<open>last_frame_time\<close>; out of it by \<^verbatim>\<open>break\<close>; or stopped by an exception nothing caught.
\<close>

datatype 'f outcome = Running 'f | Exited | Crashed string

fun loop ::
  "'f::{times,minus,ord} pyfloat \<Rightarrow> 'f \<Rightarrow> 'f \<Rightarrow> 'f answers list \<Rightarrow> 'f event list \<times> 'f outcome" where
  "loop F frame_time last_frame_time [] = ([], Running last_frame_time)"
| "loop F frame_time last_frame_time (a # as) =
     (case iteration F frame_time last_frame_time a of
        (evs, last_frame_time', Continue) \<Rightarrow>
          (let (evs', out) = loop F frame_time last_frame_time' as in (evs @ evs', out))
      | (evs, _, Break) \<Rightarrow> (evs, Exited)
      | (evs, _, Raise e) \<Rightarrow> (evs, Crashed e))"

text \<open>
  The program: lines 30 to 40 (the first clock reading is \<open>t0\<close>), the loop, and lines 93
  to 94 once the loop is left by \<^verbatim>\<open>break\<close>.
\<close>

definition main ::
  "'f::{one,inverse,times,minus,ord} pyfloat \<Rightarrow> 'f \<Rightarrow> 'f answers list \<Rightarrow> 'f event list \<times> 'f outcome" where
  "main F t0 as =
     (let frame_time = 1 / from_int F TARGET_FPS;
          last_frame_time = t0;
          (evs, out) = loop F frame_time last_frame_time as
      in ([CapSet 3 requested_width, CapSet 4 requested_height, Time t0] @ evs @
          (if out = Exited then [CapRelease, DestroyAllWindows] else []), out))"

subsection \<open>Python's float as IEEE binary64\<close>

text \<open>
  The arithmetic the program runs on. A float is a
  finite rational, an infinity (\<open>True\<close> for the negative one) or NaN; the two zeros are
  one value (they compare equal). An operation computes the exact result and rounds it
  to the nearest value with a 53-bit significand, ties to the even significand, on the
  grid of the result's binade (that of \<open>2 ^ - 1022\<close> below it, the subnormal range); a
  rounded result of binade 1024 or more, that is from \<open>2 ^ 1024\<close> on, is an infinity.

  \<open>binade q\<close> is the exponent \<open>e\<close> with \<open>2 ^ e \<le> \<bar>q\<bar> < 2 ^ (e + 1)\<close>, found from the bit
  lengths of the numerator and the denominator of \<open>q\<close>.
\<close>

datatype binary64 = Finite rat | Infinity bool | NaN

definition pow2 :: "int \<Rightarrow> rat" where
  "pow2 k = (if 0 \<le> k then 2 ^ nat k else 1 / 2 ^ nat (- k))"

definition binade :: "rat \<Rightarrow> int" where
  "binade q =
     (let (a, b) = quotient_of \<bar>q\<bar>; k = bitlen a - bitlen b
      in if pow2 k \<le> \<bar>q\<bar> then k else k - 1)"

definition round_half_even :: "rat \<Rightarrow> int" where
  "round_half_even r =
     (let f = \<lfloor>r\<rfloor>; d = r - of_int f
      in if d < 1 / 2 then f else if 1 / 2 < d then f + 1 else if even f then f else f + 1)"

definition round_binary64 :: "rat \<Rightarrow> binary64" where
  "round_binary64 q =
     (if q = 0 then Finite 0
      else let e = max (binade q) (- 1022);
               ulp = pow2 (e - 52);
               r = of_int (round_half_even (q / ulp)) * ulp
           in if r \<noteq> 0 \<and> 1024 \<le> binade r then Infinity (r < 0) else Finite r)"

text \<open>\<^verbatim>\<open>a * b\<close> and \<^verbatim>\<open>a - b\<close> on floats; neither raises.\<close>

fun float_mul :: "binary64 \<Rightarrow> binary64 \<Rightarrow> binary64" where
  "float_mul (Finite a) (Finite b) = round_binary64 (a * b)"
| "float_mul NaN _ = NaN"
| "float_mul _ NaN = NaN"
| "float_mul (Infinity s) (Infinity t) = Infinity (s \<noteq> t)"
| "float_mul (Infinity s) (Finite b) = (if b = 0 then NaN else Infinity (s \<noteq> (b < 0)))"
| "float_mul (Finite a) (Infinity t) = (if a = 0 then NaN else Infinity ((a < 0) \<noteq> t))"

fun float_sub :: "binary64 \<Rightarrow> binary64 \<Rightarrow> binary64" where
  "float_sub (Finite a) (Finite b) = round_binary64 (a - b)"
| "float_sub NaN _ = NaN"
| "float_sub _ NaN = NaN"
| "float_sub (Infinity s) (Infinity t) = (if s = t then NaN else Infinity s)"
| "float_sub (Infinity s) (Finite b) = Infinity s"
| "float_sub (Finite a) (Infinity t) = Infinity (\<not> t)"

instantiation binary64 :: "{times, minus}"
begin

definition times_binary64 :: "binary64 \<Rightarrow> binary64 \<Rightarrow> binary64" where
  "times_binary64 = float_mul"

definition minus_binary64 :: "binary64 \<Rightarrow> binary64 \<Rightarrow> binary64" where
  "minus_binary64 = float_sub"

instance ..

end




subsection \<open>Reading a list of events\<close>

text \<open>The payloads of the datagrams that went out, and of every call of \<^verbatim>\<open>sendto\<close>.\<close>

fun datagrams :: "'f event list \<Rightarrow> bytes list" where
  "datagrams [] = []"
| "datagrams (SendTo p addr None # evs) = p # datagrams evs"
| "datagrams (_ # evs) = datagrams evs"

fun send_calls :: "'f event list \<Rightarrow> bytes list" where
  "send_calls [] = []"
| "send_calls (SendTo p addr r # evs) = p # send_calls evs"
| "send_calls (_ # evs) = send_calls evs"

text \<open>The durations of the calls of \<^verbatim>\<open>time.sleep\<close>.\<close>

fun sleeps :: "'f event list \<Rightarrow> 'f list" where
  "sleeps [] = []"
| "sleeps (Sleep d # evs) = d # sleeps evs"
| "sleeps (_ # evs) = sleeps evs"

subsection \<open>The scenario of the specification\<close>

text \<open>
  A frame of 1280 by 720 with one landmark at \<open>(0.5, 0.5, 0.1)\<close>, a clock that reads 10.01
  and then 10.04, and no key pressed. The numbers are reals here, and \<open>float_repr\<close> is
  Python's \<^verbatim>\<open>repr\<close> at the three values the scenario produces.
\<close>

definition scenario_float :: "real pyfloat" where
  "scenario_float =
     \<lparr>from_int = real_of_int,
      float_repr = (\<lambda>v. if v = 640 then ''640.0'' else if v = 360 then ''360.0''
                         else if v = 128 then ''128.0'' else ''0.0'')\<rparr>"

definition scenario_answers :: "real answers" where
  "scenario_answers =
     \<lparr>cap_read = Some \<lparr>shape = (720, 1280, 3)\<rparr>,
      pose_process = Inr (Some [\<lparr>lm_x = 0.5, lm_y = 0.5, lm_z = 0.1\<rparr>]),
      sock_sendto = None, time_current = 10.01, time_after = 10.04, wait_key = - 1\<rparr>"

section \<open>Properties\<close>

subsection \<open>Auxiliary facts\<close>

lemma extract_landmarks_acc:
  "extract_landmarks conv h w lms data = data @ concat (map (mapped_point conv h w) lms)"
  by (induction lms arbitrary: data) (simp_all add: mapped_point_def)

lemma length_mapped_point: "length (mapped_point conv h w lm) = 3"
  by (simp add: mapped_point_def)

lemma length_concat_mapped:
  "length (concat (map (mapped_point conv h w) lms)) = 3 * length lms"
  by (induction lms) (simp_all add: length_mapped_point)

lemma nth_concat_mapped:
  "i < length lms \<Longrightarrow> k < 3 \<Longrightarrow>
   concat (map (mapped_point conv h w) lms) ! (3 * i + k) = mapped_point conv h w (lms ! i) ! k"
proof (induction lms arbitrary: i)
  case Nil
  then show ?case by simp
next
  case (Cons lm lms)
  show ?case
  proof (cases i)
    case 0
    with Cons.prems show ?thesis
      by (simp add: nth_append length_mapped_point)
  next
    case (Suc j)
    with Cons.prems have "j < length lms" by simp
    from Cons.IH [OF this Cons.prems(2)] Suc show ?thesis
      by (simp add: nth_append length_mapped_point)
  qed
qed

lemma extract_landmarks_mapped:
  "extract_landmarks conv h w lms [] = concat (map (mapped_point conv h w) lms)"
  by (simp add: extract_landmarks_acc)

lemma datagrams_append: "datagrams (xs @ ys) = datagrams xs @ datagrams ys"
  by (induction xs rule: datagrams.induct) simp_all

lemma send_calls_append: "send_calls (xs @ ys) = send_calls xs @ send_calls ys"
  by (induction xs rule: send_calls.induct) simp_all

lemma count_append: "count_list (xs @ ys) e = count_list xs e + count_list ys e"
  by (induction xs) simp_all

lemma iteration_capture_failed:
  "cap_read a = None \<Longrightarrow>
   iteration F frame_time last_frame_time a =
     ([CapRead, Print ''Ignoring empty camera frame.''], last_frame_time, Continue)"
  by (simp add: iteration_def)

lemma iteration_raised:
  "cap_read a = Some img \<Longrightarrow> pose_process a = Inl e \<Longrightarrow>
   iteration F frame_time last_frame_time a =
     ([CapRead, CvtColor, PoseProcess], last_frame_time, Raise e)"
  by (simp add: iteration_def split: prod.splits)

lemma iteration_completed:
  "cap_read a = Some img \<Longrightarrow> shape img = (h, w, c) \<Longrightarrow> pose_process a = Inr pl \<Longrightarrow>
   iteration F frame_time last_frame_time a =
     ([CapRead, CvtColor, PoseProcess] @ send_step F h w pl (sock_sendto a) @
      fst (pace_step frame_time last_frame_time (time_current a) (time_after a)) @
      [ImShow, WaitKey],
      time_after a,
      if wait_key a AND 255 = 113 then Break else Continue)"
  by (simp add: iteration_def pace_step_def preview_step_def Let_def split: prod.splits)

lemma pace_step_events:
  "fst (pace_step frame_time last_frame_time t1 t2) =
     Time t1 # (if t1 - last_frame_time < frame_time
                then [Sleep (frame_time - (t1 - last_frame_time))] else []) @ [Time t2]"
  by (simp add: pace_step_def Let_def)

lemma send_calls_pace [simp]: "send_calls (fst (pace_step ft l t1 t2)) = []"
  by (simp add: pace_step_events)

lemma datagrams_pace [simp]: "datagrams (fst (pace_step ft l t1 t2)) = []"
  by (simp add: pace_step_events)

lemma send_calls_send_step:
  "send_calls (send_step F h w (Some lms) r) =
     [str_encode (py_str_list (float_repr F) (extract_landmarks (from_int F) h w lms []))]"
  by (simp add: send_step_def Let_def split: option.splits)

lemma datagrams_send_step:
  "datagrams (send_step F h w (Some lms) r) =
     (if r = None
      then [str_encode (py_str_list (float_repr F) (extract_landmarks (from_int F) h w lms []))]
      else [])"
  by (simp add: send_step_def Let_def split: option.splits)

lemma sleeps_append: "sleeps (xs @ ys) = sleeps xs @ sleeps ys"
  by (induction xs rule: sleeps.induct) simp_all

lemma sleeps_send_step [simp]: "sleeps (send_step F h w pl r) = []"
  by (simp add: send_step_def Let_def split: option.splits)

lemma sleeps_pace_step:
  "sleeps (fst (pace_step frame_time last_frame_time t1 t2)) =
     (if t1 - last_frame_time < frame_time then [frame_time - (t1 - last_frame_time)] else [])"
  by (simp add: pace_step_events)

lemma loop_Continue:
  "iteration F frame_time last_frame_time a = (evs, last', Continue) \<Longrightarrow>
   loop F frame_time last_frame_time (a # as) =
     (evs @ fst (loop F frame_time last' as), snd (loop F frame_time last' as))"
  by (simp add: split_beta)

lemma loop_Break:
  "iteration F frame_time last_frame_time a = (evs, last', Break) \<Longrightarrow>
   loop F frame_time last_frame_time (a # as) = (evs, Exited)"
  by simp

lemma loop_Raise:
  "iteration F frame_time last_frame_time a = (evs, last', Raise e) \<Longrightarrow>
   loop F frame_time last_frame_time (a # as) = (evs, Crashed e)"
  by simp

lemma list_repr_items_rest:
  "list_repr_items repr (Suc i) vs = concat (map (\<lambda>u. '', '' @ repr u) vs)"
  by (induction vs arbitrary: i) simp_all

lemma list_repr_items_first:
  "list_repr_items repr 0 (v # vs) = repr v @ concat (map (\<lambda>u. '', '' @ repr u) vs)"
  by (simp add: list_repr_items_rest)

lemma str_encode_append: "str_encode (s @ t) = str_encode s @ str_encode t"
  by (simp add: str_encode_def)

lemma str_encode_brackets: "str_encode (''['' @ s @ '']'') = ''['' @ str_encode s @ '']''"
  by (simp add: str_encode_def utf8_char_def)

lemma str_encode_ascii:
  "\<forall>ch \<in> set s. (of_char ch :: nat) < 128 \<Longrightarrow> str_encode s = s"
  by (induction s) (simp_all add: str_encode_def utf8_char_def)

lemma list_repr_items_ascii:
  "\<forall>v. \<forall>ch \<in> set (repr v). (of_char ch :: nat) < 128 \<Longrightarrow>
   \<forall>ch \<in> set (list_repr_items repr i vs). (of_char ch :: nat) < 128"
  by (induction vs arbitrary: i) auto

lemma main_frame_time:
  "main F t0 as =
     ([CapSet 3 requested_width, CapSet 4 requested_height, Time t0] @
      fst (loop F (1 / from_int F TARGET_FPS) t0 as) @
      (if snd (loop F (1 / from_int F TARGET_FPS) t0 as) = Exited
       then [CapRelease, DestroyAllWindows] else []),
      snd (loop F (1 / from_int F TARGET_FPS) t0 as))"
  by (simp add: main_def Let_def split_beta)

lemma loop_capture_failures:
  "\<forall>a \<in> set as. cap_read a = None \<Longrightarrow>
   loop F frame_time last_frame_time (as @ bs) =
     (concat (replicate (length as) [CapRead, Print ''Ignoring empty camera frame.'']) @
        fst (loop F frame_time last_frame_time bs),
      snd (loop F frame_time last_frame_time bs))"
proof (induction as)
  case Nil
  show ?case by simp
next
  case (Cons a as)
  from Cons.prems have a: "cap_read a = None" and as: "\<forall>a \<in> set as. cap_read a = None"
    by simp_all
  have "loop F frame_time last_frame_time (a # (as @ bs)) =
      ([CapRead, Print ''Ignoring empty camera frame.''] @
         fst (loop F frame_time last_frame_time (as @ bs)),
       snd (loop F frame_time last_frame_time (as @ bs)))"
    by (rule loop_Continue [OF iteration_capture_failed [OF a]])
  then show ?case
    by (simp add: Cons.IH [OF as])
qed

lemma failures_events:
  "datagrams (concat (replicate n [CapRead, Print s])) = []"
  "send_calls (concat (replicate n [CapRead, Print s])) = []"
  "sleeps (concat (replicate n [CapRead, Print s])) = []"
  "set (concat (replicate n [CapRead, Print s])) \<subseteq> {CapRead, Print s}"
  by (induction n) auto

lemma loop_append_Running:
  "snd (loop F frame_time last_frame_time as) = Running l \<Longrightarrow>
   loop F frame_time last_frame_time (as @ bs) =
     (fst (loop F frame_time last_frame_time as) @ fst (loop F frame_time l bs),
      snd (loop F frame_time l bs))"
proof (induction as arbitrary: last_frame_time)
  case Nil
  then show ?case by simp
next
  case (Cons a as)
  obtain evs last' ctl where it: "iteration F frame_time last_frame_time a = (evs, last', ctl)"
    by (cases "iteration F frame_time last_frame_time a") auto
  show ?case
  proof (cases ctl)
    case Continue
    with Cons.prems it have "snd (loop F frame_time last' as) = Running l"
      by (simp add: split_beta)
    from Cons.IH [OF this] it Continue show ?thesis
      by (simp add: split_beta)
  next
    case Break
    with Cons.prems it show ?thesis by simp
  next
    case (Raise e)
    with Cons.prems it show ?thesis by simp
  qed
qed

lemma count_list_send_step [simp]: "count_list (send_step F h w pl r) WaitKey = 0"
  by (simp add: send_step_def Let_def split: option.splits)

lemma count_list_pace_step [simp]:
  "count_list (fst (pace_step frame_time last_frame_time t1 t2)) WaitKey = 0"
  by (simp add: pace_step_events)

lemma iteration_Break:
  assumes "snd (snd (iteration F frame_time last_frame_time a)) = Break"
  shows "cap_read a \<noteq> None \<and> wait_key a AND 255 = 113
       \<and> (\<exists>pre. fst (iteration F frame_time last_frame_time a) = pre @ [ImShow, WaitKey])"
proof (cases "cap_read a")
  case None
  with assms show ?thesis by (simp add: iteration_capture_failed)
next
  case (Some img)
  obtain h w c where s: "shape img = (h, w, c)"
    by (cases "shape img") auto
  show ?thesis
  proof (cases "pose_process a")
    case (Inl e)
    with assms Some show ?thesis by (simp add: iteration_raised)
  next
    case (Inr pl)
    note it = iteration_completed [OF Some s Inr]
    from assms have k: "wait_key a AND 255 = 113"
      by (simp add: it split: if_splits)
    have "fst (iteration F frame_time last_frame_time a) =
        ([CapRead, CvtColor, PoseProcess] @ send_step F h w pl (sock_sendto a) @
         fst (pace_step frame_time last_frame_time (time_current a) (time_after a))) @
        [ImShow, WaitKey]"
      by (simp add: it)
    then have "\<exists>pre. fst (iteration F frame_time last_frame_time a) = pre @ [ImShow, WaitKey]"
      by blast
    with Some k show ?thesis by simp
  qed
qed

lemma loop_Exited:
  "snd (loop F frame_time last_frame_time as) = Exited \<Longrightarrow>
   (\<exists>a \<in> set as. cap_read a \<noteq> None \<and> wait_key a AND 255 = 113)
   \<and> (\<exists>pre. fst (loop F frame_time last_frame_time as) = pre @ [ImShow, WaitKey])"
proof (induction as arbitrary: last_frame_time)
  case Nil
  then show ?case by simp
next
  case (Cons a as)
  obtain evs last' ctl where it: "iteration F frame_time last_frame_time a = (evs, last', ctl)"
    by (cases "iteration F frame_time last_frame_time a") auto
  show ?case
  proof (cases ctl)
    case Continue
    with Cons.prems it have "snd (loop F frame_time last' as) = Exited"
      by (simp add: split_beta)
    from Cons.IH [OF this] obtain b pre where
      b: "b \<in> set as" "cap_read b \<noteq> None" "wait_key b AND 255 = 113"
      and pre: "fst (loop F frame_time last' as) = pre @ [ImShow, WaitKey]"
      by blast
    from it Continue pre
    have "fst (loop F frame_time last_frame_time (a # as)) = (evs @ pre) @ [ImShow, WaitKey]"
      by (simp add: split_beta)
    then have "\<exists>pre. fst (loop F frame_time last_frame_time (a # as)) = pre @ [ImShow, WaitKey]"
      by blast
    with b show ?thesis by auto
  next
    case Break
    with it have "snd (snd (iteration F frame_time last_frame_time a)) = Break"
      by simp
    from iteration_Break [OF this] it Break show ?thesis
      by simp
  next
    case (Raise e)
    with Cons.prems it show ?thesis by simp
  qed
qed

lemma scenario_iteration:
  "iteration scenario_float ft l (scenario_answers\<lparr>wait_key := k\<rparr>) =
     ([CapRead, CvtColor, PoseProcess, DrawLandmarks,
       SendTo ''[640.0, 360.0, 128.0]'' serverAddressPort None, Time 10.01] @
      (if 10.01 - l < ft then [Sleep (ft - (10.01 - l))] else []) @
      [Time 10.04, ImShow, WaitKey],
      10.04, if k AND 255 = 113 then Break else Continue)"
  by (simp add: scenario_answers_def scenario_float_def iteration_def send_step_def
      pace_step_def preview_step_def Let_def py_str_list_def str_encode_def utf8_char_def)

lemma scenario_iteration_failed:
  "iteration scenario_float ft l (scenario_answers\<lparr>sock_sendto := Some e\<rparr>) =
     ([CapRead, CvtColor, PoseProcess, DrawLandmarks,
       SendTo ''[640.0, 360.0, 128.0]'' serverAddressPort (Some e),
       Print (''Socket Error: '' @ e), Time 10.01] @
      (if 10.01 - l < ft then [Sleep (ft - (10.01 - l))] else []) @
      [Time 10.04, ImShow, WaitKey],
      10.04, Continue)"
  by (simp add: scenario_answers_def scenario_float_def iteration_def send_step_def
      pace_step_def preview_step_def Let_def py_str_list_def str_encode_def utf8_char_def)

lemma pow2_pos: "0 < pow2 k"
  by (simp add: pow2_def)

lemma pow2_power_int: "pow2 k = power_int 2 k"
  by (simp add: pow2_def power_int_def field_simps)

lemma pow2_add: "pow2 (j + k) = pow2 j * pow2 k"
  by (simp add: pow2_power_int power_int_add)

lemma pow2_nat: "0 \<le> k \<Longrightarrow> pow2 k = 2 ^ nat k"
  by (simp add: pow2_def)

lemma round_half_even_error: "\<bar>of_int (round_half_even r) - r\<bar> \<le> 1 / 2"
proof -
  have "of_int \<lfloor>r\<rfloor> \<le> r" and "r < of_int \<lfloor>r\<rfloor> + 1"
    by linarith+
  then show ?thesis
    unfolding round_half_even_def Let_def
    by (simp add: abs_le_iff)
qed

lemma bitlen_pow2_bounds:
  assumes "0 < a"
  shows "pow2 (bitlen a - 1) \<le> of_int a" and "of_int a < pow2 (bitlen a)"
proof -
  from assms have "bitlen a \<noteq> 0"
    by (simp add: bitlen_eq_zero_iff)
  with bitlen_nonneg [of a] have "0 < bitlen a"
    by simp
  then have n: "0 \<le> bitlen a - 1" "0 \<le> bitlen a" by simp_all
  from bitlen_bounds [OF assms]
  have "2 ^ nat (bitlen a - 1) \<le> a" and "a < 2 ^ nat (bitlen a)" by simp_all
  then have "(2 :: rat) ^ nat (bitlen a - 1) \<le> of_int a"
    and "(of_int a :: rat) < 2 ^ nat (bitlen a)"
    by simp_all
  then show "pow2 (bitlen a - 1) \<le> of_int a" and "of_int a < pow2 (bitlen a)"
    unfolding pow2_nat [OF n(1)] pow2_nat [OF n(2)] by simp_all
qed

lemma binade_bounds:
  assumes "q \<noteq> 0"
  shows "pow2 (binade q) \<le> \<bar>q\<bar> \<and> \<bar>q\<bar> < pow2 (binade q + 1)"
proof -
  obtain a b where ab: "quotient_of \<bar>q\<bar> = (a, b)"
    by (cases "quotient_of \<bar>q\<bar>") auto
  have b: "0 < b" using ab by (rule quotient_of_denom_pos)
  have q: "\<bar>q\<bar> = of_int a / of_int b"
    using ab by (rule quotient_of_div)
  from assms have "0 < \<bar>q\<bar>" by simp
  with q b have a: "0 < a"
    by (simp add: zero_less_divide_iff)
  let ?k = "bitlen a - bitlen b"
  note A = bitlen_pow2_bounds [OF a] and B = bitlen_pow2_bounds [OF b]
  have "pow2 (?k - 1) * of_int b \<le> pow2 (?k - 1) * pow2 (bitlen b)"
    using B(2) pow2_pos [of "?k - 1"] by simp
  also have "\<dots> = pow2 (bitlen a - 1)"
    by (simp add: pow2_add [symmetric])
  also have "\<dots> \<le> of_int a" by (rule A(1))
  finally have lo: "pow2 (?k - 1) \<le> \<bar>q\<bar>"
    using b by (simp add: q pos_le_divide_eq)
  have "of_int a < pow2 (bitlen a)" by (rule A(2))
  also have "\<dots> = pow2 (?k + 1) * pow2 (bitlen b - 1)"
    by (simp add: pow2_add [symmetric])
  also have "\<dots> \<le> pow2 (?k + 1) * of_int b"
    using B(1) pow2_pos [of "?k + 1"] by simp
  finally have hi: "\<bar>q\<bar> < pow2 (?k + 1)"
    using b by (simp add: q pos_divide_less_eq)
  show ?thesis
    using lo hi by (auto simp: binade_def ab Let_def not_le)
qed

lemma round_binary64_error:
  assumes "round_binary64 q = Finite r"
  shows "\<bar>r - q\<bar> \<le> pow2 (max (binade q) (- 1022) - 53)"
proof (cases "q = 0")
  case True
  with assms have "r = 0" by (simp add: round_binary64_def)
  with True show ?thesis using pow2_pos [of "max (binade 0) (- 1022) - 53"] by simp
next
  case False
  let ?e = "max (binade q) (- 1022)"
  let ?ulp = "pow2 (?e - 52)"
  let ?n = "round_half_even (q / ?ulp)"
  from assms False have r: "r = of_int ?n * ?ulp"
    by (simp add: round_binary64_def Let_def split: if_splits)
  have u: "0 < ?ulp" by (rule pow2_pos)
  have "r - q = (of_int ?n - q / ?ulp) * ?ulp"
    using u by (simp add: r left_diff_distrib)
  then have "\<bar>r - q\<bar> = \<bar>of_int ?n - q / ?ulp\<bar> * \<bar>?ulp\<bar>"
    by (simp only: abs_mult)
  also have "\<dots> = \<bar>of_int ?n - q / ?ulp\<bar> * ?ulp"
    using u by simp
  also have "\<bar>of_int ?n - q / ?ulp\<bar> * ?ulp \<le> 1 / 2 * ?ulp"
    using round_half_even_error [of "q / ?ulp"] u by (simp only: mult_right_mono less_imp_le)
  also have "\<dots> = pow2 (?e - 53)"
  proof -
    have "pow2 (?e - 52) = pow2 (?e - 53 + 1)" by simp
    also have "\<dots> = pow2 (?e - 53) * pow2 1" by (simp only: pow2_add)
    finally show ?thesis by (simp add: pow2_def)
  qed
  finally show ?thesis .
qed


lemma pow2_mono: "j \<le> k \<Longrightarrow> pow2 j \<le> pow2 k"
  by (simp add: pow2_power_int power_int_increasing)

lemma round_binary64_grid:
  assumes "round_binary64 q = Finite r" and "q \<noteq> 0"
  shows "\<exists>n. r = of_int n * pow2 (max (binade q) (- 1022) - 52) \<and> \<bar>n\<bar> \<le> 2 ^ 53"
proof -
  let ?e = "max (binade q) (- 1022)"
  let ?ulp = "pow2 (?e - 52)"
  let ?n = "round_half_even (q / ?ulp)"
  from assms have r: "r = of_int ?n * ?ulp"
    by (simp add: round_binary64_def Let_def split: if_splits)
  have u: "0 < ?ulp" by (rule pow2_pos)
  have "\<bar>q\<bar> < pow2 (binade q + 1)"
    using binade_bounds [OF assms(2)] by simp
  also have "\<dots> \<le> pow2 (?e + 1)"
    by (rule pow2_mono) simp
  also have "\<dots> = pow2 53 * ?ulp"
    by (simp add: pow2_add [symmetric] add.commute)
  finally have "\<bar>q\<bar> / ?ulp < pow2 53"
    using u by (simp add: pos_divide_less_eq)
  then have x: "\<bar>q / ?ulp\<bar> < 2 ^ 53"
    using u by (simp add: pow2_def)
  have "\<bar>of_int ?n - q / ?ulp\<bar> \<le> 1 / 2"
    by (rule round_half_even_error)
  with x have "\<bar>(of_int ?n :: rat)\<bar> < 2 ^ 53 + 1"
    by linarith
  then have "\<bar>(of_int ?n :: rat)\<bar> < of_int (2 ^ 53 + 1)"
    by simp
  then have "\<bar>?n\<bar> < 2 ^ 53 + 1"
    by (simp only: of_int_abs [symmetric] of_int_less_iff)
  then have "\<bar>?n\<bar> \<le> 2 ^ 53"
    by simp
  with r show ?thesis by blast
qed

lemma binade_ge_iff:
  assumes "q \<noteq> 0"
  shows "k \<le> binade q \<longleftrightarrow> pow2 k \<le> \<bar>q\<bar>"
proof
  assume "k \<le> binade q"
  then have "pow2 k \<le> pow2 (binade q)" by (rule pow2_mono)
  with binade_bounds [OF assms] show "pow2 k \<le> \<bar>q\<bar>" by simp
next
  assume "pow2 k \<le> \<bar>q\<bar>"
  with binade_bounds [OF assms] have "pow2 k < pow2 (binade q + 1)" by simp
  then have "\<not> binade q + 1 \<le> k"
    using pow2_mono [of "binade q + 1" k] by auto
  then show "k \<le> binade q" by simp
qed

lemma round_binary64_overflow:
  "round_binary64 q = Infinity s \<Longrightarrow>
   \<exists>r. pow2 1024 \<le> \<bar>r\<bar> \<and> s = (r < 0) \<and>
       r = of_int (round_half_even (q / pow2 (max (binade q) (- 1022) - 52))) *
           pow2 (max (binade q) (- 1022) - 52)"
  by (auto simp: round_binary64_def Let_def binade_ge_iff split: if_splits)

lemma round_binary64_finite:
  assumes "round_binary64 q = Finite r"
  shows "\<bar>r\<bar> < pow2 1024"
proof (cases "r = 0")
  case True
  then show ?thesis by (simp add: pow2_pos)
next
  case False
  from assms False have "\<not> 1024 \<le> binade r"
    by (auto simp: round_binary64_def Let_def split: if_splits)
  then show ?thesis
    by (simp only: binade_ge_iff [OF False] not_le)
qed

subsection \<open>C1: the coordinate mapper\<close>

text \<open>
  C1. In an iteration whose capture succeeded on a frame of shape \<open>(h, w, c)\<close> and whose
  estimator reported the landmarks \<open>lms\<close>, the list the program renders and hands to
  \<^verbatim>\<open>sendto\<close> is the one the mapper builds from the \<open>h\<close> and \<open>w\<close> of that frame, whatever
  resolution was requested. It is the concatenation, in the order of \<open>lms\<close>, of the
  triples \<open>x * w\<close>, \<open>h - y * h\<close>, \<open>z * w\<close>: the products and the difference themselves,
  with nothing applied to them afterwards. Landmark \<open>i\<close> fills the positions \<open>3 * i\<close>,
  \<open>3 * i + 1\<close> and \<open>3 * i + 2\<close>.
\<close>

theorem mapper_per_landmark:
  assumes "cap_read a = Some img" and "shape img = (h, w, c)"
    and "pose_process a = Inr (Some lms)"
  shows "send_calls (fst (iteration F frame_time last_frame_time a)) =
           [str_encode (py_str_list (float_repr F) (extract_landmarks (from_int F) h w lms []))]
       \<and> extract_landmarks (from_int F) h w lms [] =
           concat (map (\<lambda>lm. [lm_x lm * from_int F w,
                                from_int F h - lm_y lm * from_int F h,
                                lm_z lm * from_int F w]) lms)
       \<and> (\<forall>i < length lms.
             extract_landmarks (from_int F) h w lms [] ! (3 * i) = lm_x (lms ! i) * from_int F w
           \<and> extract_landmarks (from_int F) h w lms [] ! (3 * i + 1) =
               from_int F h - lm_y (lms ! i) * from_int F h
           \<and> extract_landmarks (from_int F) h w lms [] ! (3 * i + 2) = lm_z (lms ! i) * from_int F w)"
proof (intro conjI allI impI)
  show "send_calls (fst (iteration F frame_time last_frame_time a)) =
           [str_encode (py_str_list (float_repr F) (extract_landmarks (from_int F) h w lms []))]"
    by (simp add: iteration_completed [OF assms] send_calls_append send_calls_send_step)
  show "extract_landmarks (from_int F) h w lms [] =
           concat (map (\<lambda>lm. [lm_x lm * from_int F w,
                                from_int F h - lm_y lm * from_int F h,
                                lm_z lm * from_int F w]) lms)"
    by (simp add: extract_landmarks_acc mapped_point_def [abs_def])
next
  fix i assume i: "i < length lms"
  show "extract_landmarks (from_int F) h w lms [] ! (3 * i) = lm_x (lms ! i) * from_int F w"
    using nth_concat_mapped [OF i, of 0 "from_int F" h w]
    by (simp add: extract_landmarks_mapped mapped_point_def)
  show "extract_landmarks (from_int F) h w lms [] ! (3 * i + 1) =
               from_int F h - lm_y (lms ! i) * from_int F h"
    using nth_concat_mapped [OF i, of 1 "from_int F" h w]
    by (simp add: extract_landmarks_mapped mapped_point_def)
  show "extract_landmarks (from_int F) h w lms [] ! (3 * i + 2) = lm_z (lms ! i) * from_int F w"
    using nth_concat_mapped [OF i, of 2 "from_int F" h w]
    by (simp add: extract_landmarks_mapped mapped_point_def)
qed

theorem mapper_per_landmark_witness:
  "cap_read (scenario_answers\<lparr>cap_read := Some \<lparr>shape = (480, 640, 3)\<rparr>\<rparr>) =
     Some \<lparr>shape = (480, 640, 3)\<rparr>
   \<and> (640, 480) \<noteq> (requested_width, requested_height)
   \<and> extract_landmarks real_of_int 480 640 [\<lparr>lm_x = 0.5, lm_y = 0.5, lm_z = 0.1\<rparr>] [] =
       [320, 240, 64]
   \<and> send_calls (fst (iteration scenario_float (1 / 30) 10
         (scenario_answers\<lparr>cap_read := Some \<lparr>shape = (480, 640, 3)\<rparr>\<rparr>))) =
       [str_encode (py_str_list (float_repr scenario_float) [320, 240, 64])]"
  using mapper_per_landmark [of "scenario_answers\<lparr>cap_read := Some \<lparr>shape = (480, 640, 3)\<rparr>\<rparr>"
      "\<lparr>shape = (480, 640, 3)\<rparr>" 480 640 3 "[\<lparr>lm_x = 0.5, lm_y = 0.5, lm_z = 0.1\<rparr>]"
      scenario_float "1 / 30" 10]
  by (simp add: scenario_answers_def scenario_float_def requested_width_def)

subsection \<open>C2: one call of sendto for a detected frame\<close>

text \<open>
  C2, as amended. In an iteration whose capture succeeded on a frame of shape \<open>(h, w, c)\<close>
  and whose estimator reported the landmarks \<open>lms\<close>, \<^verbatim>\<open>sendto\<close> is called exactly once. Its
  payload renders a list of exactly \<open>3 * length lms\<close> values, the mapped triples in the
  order of \<open>lms\<close>. That one datagram goes out when the call returns; when the call raises,
  no datagram goes out for the frame.
\<close>

theorem one_send_call_per_detection:
  assumes "cap_read a = Some img" and "shape img = (h, w, c)"
    and "pose_process a = Inr (Some lms)"
  shows "send_calls (fst (iteration F frame_time last_frame_time a)) =
           [str_encode (py_str_list (float_repr F)
              (concat (map (mapped_point (from_int F) h w) lms)))]
       \<and> length (concat (map (mapped_point (from_int F) h w) lms)) = 3 * length lms
       \<and> datagrams (fst (iteration F frame_time last_frame_time a)) =
           (if sock_sendto a = None
            then send_calls (fst (iteration F frame_time last_frame_time a)) else [])"
  by (simp add: iteration_completed [OF assms] send_calls_append datagrams_append
      send_calls_send_step datagrams_send_step extract_landmarks_mapped length_concat_mapped)

theorem one_send_call_per_detection_witness:
  "send_calls (fst (iteration scenario_float (1 / 30) 10 scenario_answers)) =
     [''[640.0, 360.0, 128.0]'']
   \<and> datagrams (fst (iteration scenario_float (1 / 30) 10 scenario_answers)) =
     [''[640.0, 360.0, 128.0]'']
   \<and> send_calls (fst (iteration scenario_float (1 / 30) 10
        (scenario_answers\<lparr>sock_sendto := Some ''Network is unreachable''\<rparr>))) =
     [''[640.0, 360.0, 128.0]'']"
  using one_send_call_per_detection [of scenario_answers "\<lparr>shape = (720, 1280, 3)\<rparr>" 720 1280 3
      "[\<lparr>lm_x = 0.5, lm_y = 0.5, lm_z = 0.1\<rparr>]" scenario_float "1 / 30" 10]
    one_send_call_per_detection [of "scenario_answers\<lparr>sock_sendto := Some ''Network is unreachable''\<rparr>"
      "\<lparr>shape = (720, 1280, 3)\<rparr>" 720 1280 3
      "[\<lparr>lm_x = 0.5, lm_y = 0.5, lm_z = 0.1\<rparr>]" scenario_float "1 / 30" 10]
  by (simp add: scenario_answers_def scenario_float_def mapped_point_def py_str_list_def
      str_encode_def utf8_char_def)

text \<open>
  The claim as written promises a datagram for every detection. In the scenario of the
  specification, with a socket that raises, the frame has a detection and no datagram.
\<close>

theorem detection_without_datagram:
  "cap_read (scenario_answers\<lparr>sock_sendto := Some ''Network is unreachable''\<rparr>) =
     Some \<lparr>shape = (720, 1280, 3)\<rparr>
   \<and> pose_process (scenario_answers\<lparr>sock_sendto := Some ''Network is unreachable''\<rparr>) =
     Inr (Some [\<lparr>lm_x = 0.5, lm_y = 0.5, lm_z = 0.1\<rparr>])
   \<and> datagrams (fst (iteration scenario_float (1 / 30) 10
        (scenario_answers\<lparr>sock_sendto := Some ''Network is unreachable''\<rparr>))) = []"
  by (simp add: scenario_answers_def iteration_def send_step_def pace_step_def
      preview_step_def Let_def)

subsection \<open>C3: no pose, no datagram\<close>

text \<open>
  C3. In an iteration whose capture succeeded and whose estimator reported no pose,
  \<^verbatim>\<open>sendto\<close> is not called, so no payload is built and no datagram goes out. The
  iteration raises nothing: it ends in the quit test of the preview, and when the key is
  not the quit key the loop goes on with the next iteration, from the timestamp the pacer
  has just stored.
\<close>

theorem no_pose_no_datagram:
  assumes "cap_read a = Some img" and "pose_process a = Inr None"
  shows "send_calls (fst (iteration F frame_time last_frame_time a)) = []
       \<and> datagrams (fst (iteration F frame_time last_frame_time a)) = []
       \<and> snd (snd (iteration F frame_time last_frame_time a)) =
           (if wait_key a AND 255 = 113 then Break else Continue)
       \<and> (wait_key a AND 255 \<noteq> 113 \<longrightarrow>
            loop F frame_time last_frame_time (a # as) =
              (fst (iteration F frame_time last_frame_time a) @
                 fst (loop F frame_time (time_after a) as),
               snd (loop F frame_time (time_after a) as)))"
proof -
  obtain h w c where s: "shape img = (h, w, c)"
    by (cases "shape img") auto
  note it = iteration_completed [OF assms(1) s assms(2)]
  show ?thesis
    by (simp add: it send_step_def send_calls_append datagrams_append split_beta)
qed

theorem no_pose_no_datagram_witness:
  "send_calls (fst (iteration scenario_float (1 / 30) 10
      (scenario_answers\<lparr>pose_process := Inr None\<rparr>))) = []
   \<and> snd (snd (iteration scenario_float (1 / 30) 10
      (scenario_answers\<lparr>pose_process := Inr None\<rparr>))) = Continue
   \<and> snd (loop scenario_float (1 / 30) 10
        [scenario_answers\<lparr>pose_process := Inr None\<rparr>, scenario_answers]) = Running 10.04
   \<and> datagrams (fst (loop scenario_float (1 / 30) 10
        [scenario_answers\<lparr>pose_process := Inr None\<rparr>, scenario_answers])) =
       [''[640.0, 360.0, 128.0]'']"
  using no_pose_no_datagram [of "scenario_answers\<lparr>pose_process := Inr None\<rparr>"
      "\<lparr>shape = (720, 1280, 3)\<rparr>" scenario_float "1 / 30" 10 "[scenario_answers]"]
  apply (simp add: scenario_answers_def)
  apply (simp add: iteration_def send_step_def pace_step_def preview_step_def Let_def datagrams_append
      scenario_float_def py_str_list_def str_encode_def utf8_char_def)
  done

subsection \<open>C4: the pacer\<close>

text \<open>
  C4. In every iteration that reaches the pacer (capture succeeded, the estimator
  returned), the elapsed time is the clock read at line 81 minus the stored timestamp.
  When it is less than the period, \<^verbatim>\<open>time.sleep\<close> is called once, with the period minus
  the elapsed time; otherwise it is not called. The clock is read again after the sleep,
  and that second reading becomes the stored timestamp. No sleep is of a negative
  duration, in any arithmetic where \<open>x < y\<close> makes \<open>y - x\<close> not negative. The program runs
  the loop with the period \<open>1 / TARGET_FPS\<close>.
\<close>

theorem pacer_sleeps_the_difference:
  fixes frame_time :: "'f::{zero,one,inverse,times,minus,ord}"
  assumes "cap_read a = Some img" and "shape img = (h, w, c)" and "pose_process a = Inr pl"
    and "\<And>x y :: 'f. x < y \<Longrightarrow> \<not> y - x < 0"
  shows "sleeps (fst (iteration F frame_time last_frame_time a)) =
           (if time_current a - last_frame_time < frame_time
            then [frame_time - (time_current a - last_frame_time)] else [])
       \<and> (\<forall>d \<in> set (sleeps (fst (iteration F frame_time last_frame_time a))). \<not> d < 0)
       \<and> fst (snd (iteration F frame_time last_frame_time a)) = time_after a
       \<and> fst (iteration F frame_time last_frame_time a) =
           [CapRead, CvtColor, PoseProcess] @ send_step F h w pl (sock_sendto a) @
           [Time (time_current a)] @
           map Sleep (sleeps (fst (iteration F frame_time last_frame_time a))) @
           [Time (time_after a), ImShow, WaitKey]
       \<and> snd (main F t0 as) = snd (loop F (1 / from_int F TARGET_FPS) t0 as)
       \<and> sleeps (fst (main F t0 as)) = sleeps (fst (loop F (1 / from_int F TARGET_FPS) t0 as))"
proof -
  note it = iteration_completed [OF assms(1-3)]
  have s: "sleeps (fst (iteration F frame_time last_frame_time a)) =
           (if time_current a - last_frame_time < frame_time
            then [frame_time - (time_current a - last_frame_time)] else [])"
    by (simp add: it sleeps_append sleeps_pace_step)
  have n: "\<forall>d \<in> set (sleeps (fst (iteration F frame_time last_frame_time a))). \<not> d < 0"
    unfolding s using assms(4) by simp
  have l: "fst (snd (iteration F frame_time last_frame_time a)) = time_after a"
    by (simp add: it)
  have e: "fst (iteration F frame_time last_frame_time a) =
           [CapRead, CvtColor, PoseProcess] @ send_step F h w pl (sock_sendto a) @
           [Time (time_current a)] @
           map Sleep (sleeps (fst (iteration F frame_time last_frame_time a))) @
           [Time (time_after a), ImShow, WaitKey]"
    unfolding s by (simp add: it pace_step_events)
  have m: "snd (main F t0 as) = snd (loop F (1 / from_int F TARGET_FPS) t0 as)"
    by (simp add: main_frame_time)
  have ms: "sleeps (fst (main F t0 as)) = sleeps (fst (loop F (1 / from_int F TARGET_FPS) t0 as))"
    by (simp add: main_frame_time sleeps_append)
  from s n l e m ms show ?thesis by blast
qed

theorem pacer_sleeps_the_difference_witness:
  "sleeps (fst (iteration scenario_float (1 / 30) 10 scenario_answers)) = [7 / 300]
   \<and> sleeps (fst (iteration scenario_float (1 / 30) 10
        (scenario_answers\<lparr>time_current := 10.05, time_after := 10.05\<rparr>))) = []
   \<and> fst (snd (iteration scenario_float (1 / 30) 10 scenario_answers)) = 10.04
   \<and> sleeps (fst (main scenario_float 10 [scenario_answers])) = [7 / 300]"
  using pacer_sleeps_the_difference [where a = scenario_answers
      and img = "\<lparr>shape = (720, 1280, 3)\<rparr>" and h = 720 and w = 1280 and c = 3
      and pl = "Some [\<lparr>lm_x = 0.5, lm_y = 0.5, lm_z = 0.1\<rparr>]" and F = scenario_float
      and frame_time = "1 / 30" and last_frame_time = 10 and ?t0.0 = 10
      and as = "[scenario_answers]"]
    pacer_sleeps_the_difference [where
      a = "scenario_answers\<lparr>time_current := 10.05, time_after := 10.05\<rparr>"
      and img = "\<lparr>shape = (720, 1280, 3)\<rparr>" and h = 720 and w = 1280 and c = 3
      and pl = "Some [\<lparr>lm_x = 0.5, lm_y = 0.5, lm_z = 0.1\<rparr>]" and F = scenario_float
      and frame_time = "1 / 30" and last_frame_time = 10 and ?t0.0 = 10 and as = "[]"]
  by (simp add: scenario_answers_def scenario_float_def TARGET_FPS_def iteration_def
      send_step_def pace_step_def preview_step_def Let_def)

subsection \<open>C9: the text on the wire\<close>

text \<open>
  C9. For a detected frame the payload handed to \<^verbatim>\<open>sendto\<close> is the encoding of
  \<^verbatim>\<open>str(data)\<close>, where \<open>data\<close> holds \<open>3 * length lms\<close> values: an opening bracket, the
  encoded \<^verbatim>\<open>repr\<close> of the first value, then for every further value a comma, a space and
  its \<^verbatim>\<open>repr\<close>, and a closing bracket. When \<^verbatim>\<open>repr\<close> writes ASCII only, as it does for a
  float, the bytes are the characters of that text.
\<close>

theorem payload_is_list_rendering:
  assumes "cap_read a = Some img" and "shape img = (h, w, c)"
    and "pose_process a = Inr (Some lms)"
  shows "send_calls (fst (iteration F frame_time last_frame_time a)) =
           [str_encode (py_str_list (float_repr F) (extract_landmarks (from_int F) h w lms []))]
       \<and> length (extract_landmarks (from_int F) h w lms []) = 3 * length lms
       \<and> str_encode (py_str_list (float_repr F) (extract_landmarks (from_int F) h w lms [])) =
           ''['' @
           str_encode (case extract_landmarks (from_int F) h w lms [] of
                         [] \<Rightarrow> []
                       | v # vs \<Rightarrow> float_repr F v @ concat (map (\<lambda>u. '', '' @ float_repr F u) vs)) @
           '']''
       \<and> ((\<forall>v. \<forall>ch \<in> set (float_repr F v). (of_char ch :: nat) < 128) \<longrightarrow>
            str_encode (py_str_list (float_repr F) (extract_landmarks (from_int F) h w lms [])) =
              ''['' @
              (case extract_landmarks (from_int F) h w lms [] of
                 [] \<Rightarrow> []
               | v # vs \<Rightarrow> float_repr F v @ concat (map (\<lambda>u. '', '' @ float_repr F u) vs)) @
              '']'')"
proof -
  let ?data = "extract_landmarks (from_int F) h w lms []"
  let ?body = "case ?data of [] \<Rightarrow> []
     | v # vs \<Rightarrow> float_repr F v @ concat (map (\<lambda>u. '', '' @ float_repr F u) vs)"
  have b: "list_repr_items (float_repr F) 0 ?data = ?body"
    by (cases ?data) (simp_all add: list_repr_items_rest)
  have c1: "send_calls (fst (iteration F frame_time last_frame_time a)) =
           [str_encode (py_str_list (float_repr F) ?data)]"
    by (simp add: iteration_completed [OF assms] send_calls_append send_calls_send_step)
  have c2: "length ?data = 3 * length lms"
    by (simp add: extract_landmarks_mapped length_concat_mapped)
  have c3: "str_encode (py_str_list (float_repr F) ?data) = ''['' @ str_encode ?body @ '']''"
    unfolding py_str_list_def b by (rule str_encode_brackets)
  have c4: "str_encode ?body = ?body"
    if "\<forall>v. \<forall>ch \<in> set (float_repr F v). (of_char ch :: nat) < 128"
    using list_repr_items_ascii [OF that, of 0 ?data] unfolding b by (rule str_encode_ascii)
  from c1 c2 c3 c4 show ?thesis by simp
qed

theorem payload_is_list_rendering_witness:
  "send_calls (fst (iteration scenario_float (1 / 30) 10 scenario_answers)) =
     [''[640.0, 360.0, 128.0]'']
   \<and> length (extract_landmarks real_of_int 720 1280 [\<lparr>lm_x = 0.5, lm_y = 0.5, lm_z = 0.1\<rparr>] []) = 3"
  using payload_is_list_rendering [of scenario_answers "\<lparr>shape = (720, 1280, 3)\<rparr>" 720 1280 3
      "[\<lparr>lm_x = 0.5, lm_y = 0.5, lm_z = 0.1\<rparr>]" scenario_float "1 / 30" 10]
  by (simp add: scenario_answers_def scenario_float_def py_str_list_def str_encode_def utf8_char_def)

subsection \<open>C5: capture failure\<close>

text \<open>
  C5. Over any number of consecutive iterations whose capture fails, each iteration is the
  call of \<^verbatim>\<open>cap.read\<close> and the message, and nothing else: no colour conversion, no
  inference, no drawing, no call of \<^verbatim>\<open>sendto\<close>, no datagram. The program is still in its
  loop afterwards, with the timestamp it had, and whatever iterations follow run as they
  would have run without the failures.
\<close>

theorem capture_failure_retries:
  assumes "\<forall>a \<in> set as. cap_read a = None"
  shows "fst (loop F frame_time last_frame_time as) =
           concat (replicate (length as) [CapRead, Print ''Ignoring empty camera frame.''])
       \<and> snd (loop F frame_time last_frame_time as) = Running last_frame_time
       \<and> send_calls (fst (loop F frame_time last_frame_time as)) = []
       \<and> datagrams (fst (loop F frame_time last_frame_time as)) = []
       \<and> CvtColor \<notin> set (fst (loop F frame_time last_frame_time as))
       \<and> PoseProcess \<notin> set (fst (loop F frame_time last_frame_time as))
       \<and> DrawLandmarks \<notin> set (fst (loop F frame_time last_frame_time as))
       \<and> loop F frame_time last_frame_time (as @ bs) =
           (fst (loop F frame_time last_frame_time as) @
              fst (loop F frame_time last_frame_time bs),
            snd (loop F frame_time last_frame_time bs))"
proof -
  let ?evs = "concat (replicate (length as) [CapRead, Print ''Ignoring empty camera frame.''])"
  have l: "loop F frame_time last_frame_time as = (?evs, Running last_frame_time)"
    using loop_capture_failures [OF assms, of F frame_time last_frame_time "[]"] by simp
  have s: "set ?evs \<subseteq> {CapRead, Print ''Ignoring empty camera frame.''}"
    by (rule failures_events)
  have n: "CvtColor \<notin> set ?evs" "PoseProcess \<notin> set ?evs" "DrawLandmarks \<notin> set ?evs"
    using s by auto
  show ?thesis
    using n by (simp add: l failures_events loop_capture_failures [OF assms])
qed

theorem capture_failure_retries_witness:
  "snd (loop scenario_float (1 / 30) 10
      (replicate 3 (scenario_answers\<lparr>cap_read := None\<rparr>))) = Running 10
   \<and> datagrams (fst (loop scenario_float (1 / 30) 10
      (replicate 3 (scenario_answers\<lparr>cap_read := None\<rparr>)))) = []
   \<and> fst (loop scenario_float (1 / 30) 10
      (replicate 3 (scenario_answers\<lparr>cap_read := None\<rparr>))) =
      [CapRead, Print ''Ignoring empty camera frame.'',
       CapRead, Print ''Ignoring empty camera frame.'',
       CapRead, Print ''Ignoring empty camera frame.'']
   \<and> datagrams (fst (loop scenario_float (1 / 30) 10
      (replicate 3 (scenario_answers\<lparr>cap_read := None\<rparr>) @ [scenario_answers]))) =
      [''[640.0, 360.0, 128.0]'']"
proof -
  have d: "datagrams (fst (loop scenario_float (1 / 30) 10 [scenario_answers])) =
      [''[640.0, 360.0, 128.0]'']"
    by (simp add: scenario_answers_def scenario_float_def iteration_def send_step_def
        pace_step_def preview_step_def Let_def py_str_list_def str_encode_def utf8_char_def)
  show ?thesis
    using capture_failure_retries [of "replicate 3 (scenario_answers\<lparr>cap_read := None\<rparr>)"
        scenario_float "1 / 30" 10 "[scenario_answers]"] d
    by (simp add: datagrams_append numeral_3_eq_3)
qed

subsection \<open>C10: capture failure skips the pacer and the preview\<close>

text \<open>
  C10. While capture fails, the program as a whole does nothing but read the camera and
  print: there is no sleep, no clock reading after the one of the initialisation (the
  timestamp stays \<open>t0\<close>), no \<^verbatim>\<open>imshow\<close> and no \<^verbatim>\<open>waitKey\<close>. Whatever key is held,
  \<open>q\<close> included, the program is still running after any number of such iterations.
\<close>

theorem capture_failure_skips_pacer_and_preview:
  assumes "\<forall>a \<in> set as. cap_read a = None"
  shows "fst (main F t0 as) =
           [CapSet 3 requested_width, CapSet 4 requested_height, Time t0] @
           concat (replicate (length as) [CapRead, Print ''Ignoring empty camera frame.''])
       \<and> snd (main F t0 as) = Running t0
       \<and> sleeps (fst (main F t0 as)) = []
       \<and> ImShow \<notin> set (fst (main F t0 as))
       \<and> WaitKey \<notin> set (fst (main F t0 as))
       \<and> (\<forall>a \<in> set as. iteration F frame_time last_frame_time a =
            ([CapRead, Print ''Ignoring empty camera frame.''], last_frame_time, Continue))"
proof -
  let ?evs = "concat (replicate (length as) [CapRead, Print ''Ignoring empty camera frame.''])"
  have l: "loop F (1 / from_int F TARGET_FPS) t0 as = (?evs, Running t0)"
    using loop_capture_failures [OF assms, of F "1 / from_int F TARGET_FPS" t0 "[]"] by simp
  have m: "main F t0 as =
      ([CapSet 3 requested_width, CapSet 4 requested_height, Time t0] @ ?evs, Running t0)"
    by (simp add: main_frame_time l)
  have s: "set ?evs \<subseteq> {CapRead, Print ''Ignoring empty camera frame.''}"
    by (rule failures_events)
  have n: "ImShow \<notin> set ?evs" "WaitKey \<notin> set ?evs"
    using s by auto
  have i: "\<forall>a \<in> set as. iteration F frame_time last_frame_time a =
            ([CapRead, Print ''Ignoring empty camera frame.''], last_frame_time, Continue)"
    using assms by (simp add: iteration_capture_failed)
  show ?thesis
    using n i by (simp add: m sleeps_append failures_events)
qed

theorem capture_failure_skips_pacer_and_preview_witness:
  "snd (main scenario_float 10
      (replicate 3 (scenario_answers\<lparr>cap_read := None, wait_key := 113\<rparr>))) = Running 10
   \<and> fst (main scenario_float 10
      (replicate 3 (scenario_answers\<lparr>cap_read := None, wait_key := 113\<rparr>))) =
      [CapSet 3 1280, CapSet 4 720, Time 10,
       CapRead, Print ''Ignoring empty camera frame.'',
       CapRead, Print ''Ignoring empty camera frame.'',
       CapRead, Print ''Ignoring empty camera frame.'']"
  using capture_failure_skips_pacer_and_preview
    [of "replicate 3 (scenario_answers\<lparr>cap_read := None, wait_key := 113\<rparr>)" scenario_float 10]
  by (simp add: numeral_3_eq_3 requested_width_def requested_height_def)

subsection \<open>C6: a send that raises\<close>

text \<open>
  C6. When \<^verbatim>\<open>sendto\<close> raises \<open>e\<close> on a detected frame, the exception is caught and the
  message \<^verbatim>\<open>Socket Error: e\<close> printed; \<^verbatim>\<open>sendto\<close> is called that once and not again, and
  no datagram goes out for the frame. The failure changes nothing else: the iteration
  goes on to the pacer and the preview, and it leaves the timestamp and the control
  decision exactly as the same iteration with a successful send would. The run that
  follows ends as it would after a successful send, and sends the same datagrams, short
  of the one that was dropped.
\<close>

theorem send_failure_is_dropped:
  assumes "cap_read a = Some img" and "shape img = (h, w, c)"
    and "pose_process a = Inr (Some lms)" and "sock_sendto a = Some e"
  shows "fst (iteration F frame_time last_frame_time a) =
           [CapRead, CvtColor, PoseProcess, DrawLandmarks,
            SendTo (str_encode (py_str_list (float_repr F)
                      (extract_landmarks (from_int F) h w lms [])))
              serverAddressPort (Some e),
            Print (''Socket Error: '' @ e)] @
           fst (pace_step frame_time last_frame_time (time_current a) (time_after a)) @
           [ImShow, WaitKey]
       \<and> send_calls (fst (iteration F frame_time last_frame_time a)) =
           [str_encode (py_str_list (float_repr F) (extract_landmarks (from_int F) h w lms []))]
       \<and> datagrams (fst (iteration F frame_time last_frame_time a)) = []
       \<and> snd (iteration F frame_time last_frame_time a) =
           snd (iteration F frame_time last_frame_time (a\<lparr>sock_sendto := None\<rparr>))
       \<and> snd (loop F frame_time last_frame_time (a # as)) =
           snd (loop F frame_time last_frame_time (a\<lparr>sock_sendto := None\<rparr> # as))
       \<and> datagrams (fst (loop F frame_time last_frame_time (a # as))) =
           tl (datagrams (fst (loop F frame_time last_frame_time (a\<lparr>sock_sendto := None\<rparr> # as))))"
proof -
  let ?p = "str_encode (py_str_list (float_repr F) (extract_landmarks (from_int F) h w lms []))"
  let ?ok = "a\<lparr>sock_sendto := None\<rparr>"
  let ?paced = "fst (pace_step frame_time last_frame_time (time_current a) (time_after a))"
  let ?ctl = "if wait_key a AND 255 = 113 then Break else Continue"
  have f: "iteration F frame_time last_frame_time a =
      ([CapRead, CvtColor, PoseProcess, DrawLandmarks, SendTo ?p serverAddressPort (Some e),
        Print (''Socket Error: '' @ e)] @ ?paced @ [ImShow, WaitKey], time_after a, ?ctl)"
    by (simp add: iteration_completed [OF assms(1-3)] send_step_def assms(4))
  have "cap_read ?ok = Some img" and "pose_process ?ok = Inr (Some lms)"
    using assms by simp_all
  from iteration_completed [OF this(1) assms(2) this(2)]
  have g: "iteration F frame_time last_frame_time ?ok =
      ([CapRead, CvtColor, PoseProcess, DrawLandmarks, SendTo ?p serverAddressPort None] @
       ?paced @ [ImShow, WaitKey], time_after a, ?ctl)"
    by (simp add: send_step_def)
  have d: "datagrams (fst (iteration F frame_time last_frame_time a)) = []"
    by (simp add: f datagrams_append)
  have d': "datagrams (fst (iteration F frame_time last_frame_time ?ok)) = [?p]"
    by (simp add: g datagrams_append)
  have s: "send_calls (fst (iteration F frame_time last_frame_time a)) = [?p]"
    by (simp add: f send_calls_append)
  have l: "snd (loop F frame_time last_frame_time (a # as)) =
           snd (loop F frame_time last_frame_time (?ok # as))
       \<and> datagrams (fst (loop F frame_time last_frame_time (a # as))) =
           tl (datagrams (fst (loop F frame_time last_frame_time (?ok # as))))"
  proof (cases "wait_key a AND 255 = 113")
    case True
    with f g have "loop F frame_time last_frame_time (a # as) =
        (fst (iteration F frame_time last_frame_time a), Exited)"
      and "loop F frame_time last_frame_time (?ok # as) =
        (fst (iteration F frame_time last_frame_time ?ok), Exited)"
      by simp_all
    with d d' show ?thesis by simp
  next
    case False
    with f g have "loop F frame_time last_frame_time (a # as) =
        (fst (iteration F frame_time last_frame_time a) @ fst (loop F frame_time (time_after a) as),
         snd (loop F frame_time (time_after a) as))"
      and "loop F frame_time last_frame_time (?ok # as) =
        (fst (iteration F frame_time last_frame_time ?ok) @
           fst (loop F frame_time (time_after a) as),
         snd (loop F frame_time (time_after a) as))"
      by (simp_all add: split_beta)
    with d d' show ?thesis by (simp add: datagrams_append)
  qed
  from f g d s l show ?thesis by simp
qed

theorem send_failure_is_dropped_witness:
  "send_calls (fst (iteration scenario_float (1 / 30) 10
      (scenario_answers\<lparr>sock_sendto := Some ''Network is unreachable''\<rparr>))) =
     [''[640.0, 360.0, 128.0]'']
   \<and> datagrams (fst (iteration scenario_float (1 / 30) 10
      (scenario_answers\<lparr>sock_sendto := Some ''Network is unreachable''\<rparr>))) = []
   \<and> Print ''Socket Error: Network is unreachable'' \<in> set (fst (iteration scenario_float (1 / 30) 10
      (scenario_answers\<lparr>sock_sendto := Some ''Network is unreachable''\<rparr>)))
   \<and> snd (loop scenario_float (1 / 30) 10
        [scenario_answers\<lparr>sock_sendto := Some ''Network is unreachable''\<rparr>,
         scenario_answers\<lparr>wait_key := - 1\<rparr>]) = Running 10.04
   \<and> datagrams (fst (loop scenario_float (1 / 30) 10
        [scenario_answers\<lparr>sock_sendto := Some ''Network is unreachable''\<rparr>,
         scenario_answers\<lparr>wait_key := - 1\<rparr>])) = [''[640.0, 360.0, 128.0]'']"
proof -
  have c: "cap_read (scenario_answers\<lparr>sock_sendto := Some ''Network is unreachable''\<rparr>) =
      Some \<lparr>shape = (720, 1280, 3)\<rparr>"
    and p: "pose_process (scenario_answers\<lparr>sock_sendto := Some ''Network is unreachable''\<rparr>) =
      Inr (Some [\<lparr>lm_x = 0.5, lm_y = 0.5, lm_z = 0.1\<rparr>])"
    by (simp_all add: scenario_answers_def)
  have s: "shape \<lparr>shape = (720, 1280, 3)\<rparr> = (720, 1280, 3)"
    by simp
  have q: "sock_sendto (scenario_answers\<lparr>sock_sendto := Some ''Network is unreachable''\<rparr>) =
      Some ''Network is unreachable''"
    by simp
  note t = send_failure_is_dropped [OF c s p q, of scenario_float "1 / 30" 10
        "[scenario_answers\<lparr>wait_key := - 1\<rparr>]"]
  have g: ?thesis
    by (simp add: scenario_iteration_failed scenario_iteration datagrams_append split_beta)
  show ?thesis
    using t by - (rule g)
qed

subsection \<open>C8: the quit key\<close>

text \<open>
  C8, as amended. Every iteration in which capture succeeds and the estimator returns
  polls the key exactly once, as the last call of the iteration, after \<^verbatim>\<open>imshow\<close>; it
  leaves the loop exactly when the key code, masked with \<open>0xFF\<close>, is that of \<open>q\<close>. When
  the program is running and such an iteration polls \<open>q\<close>, the iteration is carried out in
  full, then the camera and the windows are released and the program has exited, whatever
  answers were still to come. Conversely, a program that has exited has polled \<open>q\<close> in an
  iteration whose capture succeeded, and its last calls are \<^verbatim>\<open>imshow\<close>, \<^verbatim>\<open>waitKey\<close>, the
  release of the camera and of the windows; a program that has not exited has released
  nothing.
\<close>

theorem quit_key_polled_after_capture:
  assumes "cap_read a = Some img" and "pose_process a = Inr pl"
  shows "count_list (fst (iteration F frame_time last_frame_time a)) WaitKey = 1
       \<and> (\<exists>pre. fst (iteration F frame_time last_frame_time a) = pre @ [ImShow, WaitKey])
       \<and> snd (snd (iteration F frame_time last_frame_time a)) =
           (if wait_key a AND 255 = 113 then Break else Continue)
       \<and> (snd (main F t0 bs) = Running l \<and> wait_key a AND 255 = 113 \<longrightarrow>
            main F t0 (bs @ a # cs) =
              ([CapSet 3 requested_width, CapSet 4 requested_height, Time t0] @
               fst (loop F (1 / from_int F TARGET_FPS) t0 bs) @
               fst (iteration F (1 / from_int F TARGET_FPS) l a) @
               [CapRelease, DestroyAllWindows], Exited))
       \<and> (snd (main F t0 as) = Exited \<longrightarrow>
            (\<exists>b \<in> set as. cap_read b \<noteq> None \<and> wait_key b AND 255 = 113)
            \<and> (\<exists>pre. fst (main F t0 as) =
                  pre @ [ImShow, WaitKey, CapRelease, DestroyAllWindows]))
       \<and> (snd (main F t0 as) \<noteq> Exited \<longrightarrow>
            fst (main F t0 as) =
              [CapSet 3 requested_width, CapSet 4 requested_height, Time t0] @
              fst (loop F (1 / from_int F TARGET_FPS) t0 as))"
proof -
  obtain h w c where s: "shape img = (h, w, c)"
    by (cases "shape img") auto
  note it = iteration_completed [OF assms(1) s assms(2)]
  have c1: "count_list (fst (iteration F frame_time last_frame_time a)) WaitKey = 1"
    by (simp add: it count_append)
  have "fst (iteration F frame_time last_frame_time a) =
      ([CapRead, CvtColor, PoseProcess] @ send_step F h w pl (sock_sendto a) @
       fst (pace_step frame_time last_frame_time (time_current a) (time_after a))) @
      [ImShow, WaitKey]"
    by (simp add: it)
  then have c2: "\<exists>pre. fst (iteration F frame_time last_frame_time a) = pre @ [ImShow, WaitKey]"
    by blast
  have c3: "snd (snd (iteration F frame_time last_frame_time a)) =
           (if wait_key a AND 255 = 113 then Break else Continue)"
    by (simp add: it)
  have c4: "main F t0 (bs @ a # cs) =
              ([CapSet 3 requested_width, CapSet 4 requested_height, Time t0] @
               fst (loop F (1 / from_int F TARGET_FPS) t0 bs) @
               fst (iteration F (1 / from_int F TARGET_FPS) l a) @
               [CapRelease, DestroyAllWindows], Exited)"
    if r: "snd (main F t0 bs) = Running l" and k: "wait_key a AND 255 = 113"
  proof -
    let ?ft = "1 / from_int F TARGET_FPS"
    from r have r': "snd (loop F ?ft t0 bs) = Running l"
      by (simp add: main_frame_time)
    have b: "iteration F ?ft l a = (fst (iteration F ?ft l a), time_after a, Break)"
      using k by (simp add: iteration_completed [OF assms(1) s assms(2)])
    have "loop F ?ft l (a # cs) = (fst (iteration F ?ft l a), Exited)"
      by (rule loop_Break [OF b])
    with loop_append_Running [OF r', of "a # cs"]
    have "loop F ?ft t0 (bs @ a # cs) =
        (fst (loop F ?ft t0 bs) @ fst (iteration F ?ft l a), Exited)"
      by simp
    then show ?thesis
      by (simp add: main_frame_time)
  qed
  have c5: "(\<exists>b \<in> set as. cap_read b \<noteq> None \<and> wait_key b AND 255 = 113)
            \<and> (\<exists>pre. fst (main F t0 as) =
                  pre @ [ImShow, WaitKey, CapRelease, DestroyAllWindows])"
    if e: "snd (main F t0 as) = Exited"
  proof -
    let ?ft = "1 / from_int F TARGET_FPS"
    from e have e': "snd (loop F ?ft t0 as) = Exited"
      by (simp add: main_frame_time)
    from loop_Exited [OF e'] obtain pre where
      q: "\<exists>b \<in> set as. cap_read b \<noteq> None \<and> wait_key b AND 255 = 113"
      and pre: "fst (loop F ?ft t0 as) = pre @ [ImShow, WaitKey]"
      by blast
    have "fst (main F t0 as) =
        ([CapSet 3 requested_width, CapSet 4 requested_height, Time t0] @ pre) @
        [ImShow, WaitKey, CapRelease, DestroyAllWindows]"
      by (simp add: main_frame_time e' pre)
    then have "\<exists>pre. fst (main F t0 as) =
        pre @ [ImShow, WaitKey, CapRelease, DestroyAllWindows]"
      by blast
    with q show ?thesis by simp
  qed
  have c6: "fst (main F t0 as) =
              [CapSet 3 requested_width, CapSet 4 requested_height, Time t0] @
              fst (loop F (1 / from_int F TARGET_FPS) t0 as)"
    if "snd (main F t0 as) \<noteq> Exited"
    using that by (simp add: main_frame_time)
  from c1 c2 c3 c4 c5 c6 show ?thesis by blast
qed

theorem quit_key_polled_after_capture_witness:
  "count_list (fst (iteration scenario_float (1 / 30) 10
      (scenario_answers\<lparr>wait_key := 113\<rparr>))) WaitKey = 1
   \<and> snd (snd (iteration scenario_float (1 / 30) 10
      (scenario_answers\<lparr>wait_key := 113\<rparr>))) = Break
   \<and> snd (main scenario_float 10 [scenario_answers\<lparr>wait_key := - 1\<rparr>]) = Running 10.04
   \<and> snd (main scenario_float 10
        ([scenario_answers\<lparr>wait_key := - 1\<rparr>] @ scenario_answers\<lparr>wait_key := 113\<rparr> #
         [scenario_answers\<lparr>wait_key := - 1\<rparr>])) = Exited
   \<and> datagrams (fst (main scenario_float 10
        ([scenario_answers\<lparr>wait_key := - 1\<rparr>] @ scenario_answers\<lparr>wait_key := 113\<rparr> #
         [scenario_answers\<lparr>wait_key := - 1\<rparr>]))) =
       [''[640.0, 360.0, 128.0]'', ''[640.0, 360.0, 128.0]'']"
proof -
  have r: "snd (main scenario_float 10 [scenario_answers\<lparr>wait_key := - 1\<rparr>]) = Running 10.04"
    by (simp add: main_frame_time scenario_iteration split_beta)
  have c: "cap_read (scenario_answers\<lparr>wait_key := 113\<rparr>) = Some \<lparr>shape = (720, 1280, 3)\<rparr>"
    and p: "pose_process (scenario_answers\<lparr>wait_key := 113\<rparr>) =
      Inr (Some [\<lparr>lm_x = 0.5, lm_y = 0.5, lm_z = 0.1\<rparr>])"
    by (simp_all add: scenario_answers_def)
  show ?thesis
    using r quit_key_polled_after_capture [OF c p, of scenario_float "1 / 30" 10 10
        "[scenario_answers\<lparr>wait_key := - 1\<rparr>]" "10.04" "[scenario_answers\<lparr>wait_key := - 1\<rparr>]"
        "[scenario_answers\<lparr>wait_key := - 1\<rparr>, scenario_answers\<lparr>wait_key := 113\<rparr>,
          scenario_answers\<lparr>wait_key := - 1\<rparr>]"]
    by (simp add: scenario_iteration datagrams_append split_beta)
qed

text \<open>
  The claim as written has every iteration poll the key once. An iteration whose capture
  fails does not poll it at all.
\<close>

theorem capture_failure_polls_no_key:
  "cap_read (scenario_answers\<lparr>cap_read := None\<rparr>) = None
   \<and> count_list (fst (iteration scenario_float (1 / 30) 10
        (scenario_answers\<lparr>cap_read := None\<rparr>))) WaitKey = 0"
  by (simp add: iteration_def)

subsection \<open>C7: the inverse transform\<close>




end
